theory Spec2Isabelle
  imports Main "HOL-Library.AList" "HOL-Library.Sublist"
begin

section \<open>The search-filter store of the explorer interface\<close>

text \<open>
  The module keeps a process-wide store with two JavaScript \<^verbatim>\<open>Map\<close>s, the registry of
  known filters and the selection of active ones, both keyed by strings. This theory
  embeds the store operations and the derivation of query parameters as HOL functions
  on an explicit store value, and proves the properties of the specification about them.
\<close>

subsection \<open>JavaScript maps\<close>

text \<open>
  A JavaScript \<^verbatim>\<open>Map\<close> iterates in insertion order; \<^verbatim>\<open>set\<close> on a key that is
  present replaces the value in place and on a new key appends; \<^verbatim>\<open>delete\<close> removes the
  entry. An association list with \<^const>\<open>AList.update\<close> and \<^const>\<open>AList.delete\<close> behaves
  the same way; \<^verbatim>\<open>get\<close> is \<^const>\<open>map_of\<close>, \<^verbatim>\<open>keys()\<close> is \<^term>\<open>map fst\<close>,
  \<^verbatim>\<open>values()\<close> is \<^term>\<open>map snd\<close> and \<^verbatim>\<open>clear()\<close> leaves \<^term>\<open>[]\<close>.
\<close>

type_synonym ('k, 'v) jsmap = "('k \<times> 'v) list"

abbreviation Map_set :: "'k \<Rightarrow> 'v \<Rightarrow> ('k, 'v) jsmap \<Rightarrow> ('k, 'v) jsmap" where
  "Map_set \<equiv> AList.update"

abbreviation Map_delete :: "'k \<Rightarrow> ('k, 'v) jsmap \<Rightarrow> ('k, 'v) jsmap" where
  "Map_delete \<equiv> AList.delete"

abbreviation Map_get :: "('k, 'v) jsmap \<Rightarrow> 'k \<Rightarrow> 'v option" where
  "Map_get \<equiv> map_of"

definition Map_has :: "('k, 'v) jsmap \<Rightarrow> 'k \<Rightarrow> bool" where
  "Map_has m k = (map_of m k \<noteq> None)"

abbreviation Map_keys :: "('k, 'v) jsmap \<Rightarrow> 'k list" where
  "Map_keys m \<equiv> map fst m"

abbreviation Map_values :: "('k, 'v) jsmap \<Rightarrow> 'v list" where
  "Map_values m \<equiv> map snd m"

subsection \<open>Strings\<close>

text \<open>
  Strings are lists of characters. \<^verbatim>\<open>a.includes(b)\<close> says that \<open>b\<close> occurs in
  \<open>a\<close> as a contiguous substring, which is \<^term>\<open>sublist b a\<close>. JavaScript's
  \<^verbatim>\<open>toLowerCase\<close> lower-cases all of Unicode and is not a map on single characters;
  the model does not define it and takes it as a parameter where the source calls it.
\<close>

subsection \<open>Data model\<close>

text \<open>
  Modelled from the spec: the enumeration \<^verbatim>\<open>FilterType\<close> is declared in
  \<^verbatim>\<open>./Filters\<close>, which is not among the sources. The specification lists its members
  as Location, Tag, Kind, Category and Hidden; these are also the five members that
  \<^verbatim>\<open>mapFiltersToQueryParams\<close> dispatches on. \<^verbatim>\<open>FilterType[t]\<close>, the reverse mapping
  of a TypeScript enum, is the member's name.
\<close>

datatype FilterType = Location | Tag | Kind | Category | Hidden

fun FilterType_name :: "FilterType \<Rightarrow> string" where
  "FilterType_name Location = ''Location''"
| "FilterType_name Tag = ''Tag''"
| "FilterType_name Kind = ''Kind''"
| "FilterType_name Category = ''Category''"
| "FilterType_name Hidden = ''Hidden''"

text \<open>
  Modelled from the spec: the type \<^verbatim>\<open>SavedSearch\<close> comes from the client bindings,
  which are not among the sources. Its fields are those of the specification's data
  model; \<^verbatim>\<open>filters\<close> and a saved filter's \<^verbatim>\<open>icon\<close> may be missing, as the
  \<^verbatim>\<open>?.\<close> and \<^verbatim>\<open>||\<close> of \<^verbatim>\<open>loadSearch\<close> provide for.
\<close>

record SavedSearchFilter =
  filter_type :: FilterType
  name :: string
  "value" :: string
  icon :: "string option"

record SavedSearch =
  search_id :: int
  name :: string
  description :: string
  icon :: string
  filters :: "SavedSearchFilter list option"

text \<open>
  The interfaces \<^verbatim>\<open>FilterArgs\<close>, \<^verbatim>\<open>Filter\<close> and \<^verbatim>\<open>SetFilter\<close> extend one another
  as in the source. A filter's \<^verbatim>\<open>value\<close> is a string (the source admits enum values
  that coerce to one); a missing \<^verbatim>\<open>icon\<close> is \<^term>\<open>None\<close>. \<^verbatim>\<open>KeyedFilter\<close> is the
  source's \<^verbatim>\<open>Filter & { key: string }\<close>.
\<close>

record FilterArgs =
  "value" :: string
  name :: string
  icon :: "string option"

record Filter = FilterArgs +
  type :: FilterType

record SetFilter = Filter +
  condition :: bool
  canBeRemoved :: bool

record KeyedFilter = Filter +
  key :: string

datatype SearchType = paths | objects

record SearchStore =
  isSearching :: bool
  interactingWithSearchOptions :: bool
  searchType :: SearchType
  searchQuery :: "string option"
  registeredFilters :: "(string, Filter) jsmap"
  selectedFilters :: "(string, SetFilter) jsmap"

definition searchStore :: SearchStore where
  "searchStore =
     \<lparr>isSearching = False, interactingWithSearchOptions = False, searchType = paths,
      searchQuery = None, registeredFilters = [], selectedFilters = []\<rparr>"

subsection \<open>Keys, selection and reset\<close>

definition getKey :: "'a Filter_scheme \<Rightarrow> string" where
  "getKey f = FilterType_name (type f) @ ''-'' @ name f @ ''-'' @ value f"

text \<open>
  \<^verbatim>\<open>selectFilter\<close> has the defaults \<^verbatim>\<open>condition = true\<close> and
  \<^verbatim>\<open>canBeRemoved = true\<close>; the model's callers pass them.
\<close>

definition spread_SetFilter :: "Filter \<Rightarrow> bool \<Rightarrow> bool \<Rightarrow> SetFilter" where
  \<comment> \<open>the object \<^verbatim>\<open>{ ...filter, condition, canBeRemoved }\<close>\<close>
  "spread_SetFilter f cond removable =
     \<lparr>value = value f, name = name f, icon = icon f, type = type f,
      condition = cond, canBeRemoved = removable\<rparr>"

definition selectFilter :: "Filter \<Rightarrow> bool \<Rightarrow> bool \<Rightarrow> SearchStore \<Rightarrow> SearchStore" where
  "selectFilter f cond removable s =
     (let key = getKey f in
      s\<lparr>selectedFilters := Map_set key (spread_SetFilter f cond removable) (selectedFilters s)\<rparr>)"

text \<open>
  \<^verbatim>\<open>setFilter?.canBeRemoved !== false\<close> holds when there is no entry under the key
  (the left side is then \<^verbatim>\<open>undefined\<close>) and when the entry can be removed.
\<close>

definition deselectFilter :: "'a Filter_scheme \<Rightarrow> SearchStore \<Rightarrow> SearchStore" where
  "deselectFilter f s =
     (let key = getKey f;
          setFilter = Map_get (selectedFilters s) key
      in if map_option canBeRemoved setFilter \<noteq> Some False
         then s\<lparr>selectedFilters := Map_delete key (selectedFilters s)\<rparr>
         else s)"

definition resetSearchStore :: "SearchStore \<Rightarrow> SearchStore" where
  "resetSearchStore s = s\<lparr>searchQuery := None, selectedFilters := []\<rparr>"

subsection \<open>Fixed filters\<close>

text \<open>
  The effect of \<^verbatim>\<open>useSearchFilters\<close>: it resets the store and then, for every fixed
  filter whose name is not empty, fills a missing or empty icon from the name, stores the
  filter in the registry under the filter's \<^verbatim>\<open>value\<close>, and selects it as not
  removable. \<^verbatim>\<open>fixedFilters\<close> is optional; \<^term>\<open>None\<close> is the absent argument.
\<close>

definition fixedFilter_icon :: "Filter \<Rightarrow> Filter" where
  \<comment> \<open>\<^verbatim>\<open>if (!filter.icon) filter.icon = filter.name\<close>\<close>
  "fixedFilter_icon f =
     (if icon f = None \<or> icon f = Some [] then f\<lparr>icon := Some (name f)\<rparr> else f)"

definition fixedFilter_step :: "Filter \<Rightarrow> SearchStore \<Rightarrow> SearchStore" where
  "fixedFilter_step f s =
     (if name f \<noteq> [] then
        let f' = fixedFilter_icon f;
            s' = s\<lparr>registeredFilters := Map_set (value f') f' (registeredFilters s)\<rparr>
        in selectFilter f' True False s'
      else s)"

definition useSearchFilters_effect :: "Filter list option \<Rightarrow> SearchStore \<Rightarrow> SearchStore" where
  "useSearchFilters_effect fixedFilters s =
     (let s0 = resetSearchStore s in
      case fixedFilters of
        None \<Rightarrow> s0
      | Some fs \<Rightarrow> fold fixedFilter_step fs s0)"

subsection \<open>Registration\<close>

text \<open>
  \<^verbatim>\<open>useSearchFilter\<close> returns the filters built from its arguments, each with its key,
  and its effect registers those whose key is not in the registry yet. The registry is
  declared as a map to \<^verbatim>\<open>Filter\<close>: the model stores the filter without the extra
  \<^verbatim>\<open>key\<close> property, which repeats the key of the entry.
\<close>

definition useSearchFilter :: "FilterType \<Rightarrow> FilterArgs list option \<Rightarrow> KeyedFilter list" where
  "useSearchFilter t filterArgs =
     map (\<lambda>a. \<lparr>value = value a, name = name a, icon = icon a, type = t,
               key = getKey \<lparr>value = value a, name = name a, icon = icon a, type = t\<rparr>\<rparr>)
         (case filterArgs of None \<Rightarrow> [] | Some as \<Rightarrow> as)"

definition register_step :: "KeyedFilter \<Rightarrow> SearchStore \<Rightarrow> SearchStore" where
  "register_step f s =
     (if \<not> Map_has (registeredFilters s) (key f)
      then s\<lparr>registeredFilters := Map_set (key f) (Filter.truncate f) (registeredFilters s)\<rparr>
      else s)"

definition useSearchFilter_effect ::
  "FilterType \<Rightarrow> FilterArgs list option \<Rightarrow> SearchStore \<Rightarrow> SearchStore" where
  "useSearchFilter_effect t filterArgs s = fold register_step (useSearchFilter t filterArgs) s"

subsection \<open>Searching the registry\<close>

text \<open>
  \<^verbatim>\<open>searchRegisteredFilters\<close> filters the keys of the registry, whatever they are, and
  returns the filter stored under each key that is kept, together with that key. The
  first argument is JavaScript's \<^verbatim>\<open>toLowerCase\<close>. The registry is declared as
  \<^verbatim>\<open>Map<string, Filter>\<close> and the model follows the declaration: every key is a
  string (also a filter's \<^verbatim>\<open>value\<close>, which the effect of \<^verbatim>\<open>useSearchFilters\<close> uses
  as a key), so the call of \<^verbatim>\<open>toLowerCase\<close> on a key is always defined.
\<close>

definition searchRegisteredFilters ::
  "(string \<Rightarrow> string) \<Rightarrow> string \<Rightarrow> SearchStore \<Rightarrow> KeyedFilter list" where
  "searchRegisteredFilters toLowerCase query s =
     (if query = [] then []
      else
        let keys = filter (\<lambda>k. sublist (toLowerCase query) (toLowerCase k))
                     (Map_keys (registeredFilters s))
        in map (\<lambda>k. Filter.extend (the (Map_get (registeredFilters s) k)) (KeyedFilter.fields k))
               keys)"

subsection \<open>Saved searches\<close>

definition loadSearch_filter :: "SavedSearchFilter \<Rightarrow> Filter" where
  \<comment> \<open>the \<^verbatim>\<open>filter\<close> built from a saved one; \<^verbatim>\<open>icon || ''\<close> is never missing\<close>
  "loadSearch_filter sf =
     \<lparr>value = SavedSearchFilter.value sf, name = SavedSearchFilter.name sf,
      icon = Some (case SavedSearchFilter.icon sf of None \<Rightarrow> [] | Some i \<Rightarrow> i),
      type = filter_type sf\<rparr>"

definition loadSearch_step :: "SavedSearchFilter \<Rightarrow> SearchStore \<Rightarrow> SearchStore" where
  "loadSearch_step sf s =
     (let f = loadSearch_filter sf;
          key = getKey f;
          s' = s\<lparr>registeredFilters := Map_set key f (registeredFilters s)\<rparr>
      in selectFilter f True True s')"

definition loadSearch :: "SavedSearch list \<Rightarrow> int \<Rightarrow> SearchStore \<Rightarrow> SearchStore" where
  "loadSearch searches i s =
     (case find (\<lambda>search. search_id search = i) searches of
        None \<Rightarrow> s
      | Some search \<Rightarrow>
          (let s0 = s\<lparr>selectedFilters := []\<rparr> in
           case filters search of
             None \<Rightarrow> s0
           | Some fs \<Rightarrow> fold loadSearch_step fs s0))"

subsection \<open>Deriving the query parameters\<close>

text \<open>
  \<^verbatim>\<open>mapFiltersToQueryParams\<close> uses the helper \<^verbatim>\<open>inOrNotIn\<close> of \<^verbatim>\<open>./util\<close> and
  the argument types of the client bindings, neither of which is among the sources, and
  JavaScript's \<^verbatim>\<open>parseInt\<close>. The model takes them as parameters: \<open>inOrNotIn\<close> at
  numbers, \<open>inOrNotIn_cat\<close> at categories (the helper is generic), and \<open>parseInt\<close>;
  the accumulated values have the types \<open>'a\<close> and \<open>'c\<close>. A field of the two argument
  objects that was never assigned is \<^term>\<open>None\<close>.
\<close>

record ('a, 'c) ObjectFilterArgs =
  tags :: "'a option"
  kind :: "'a option"
  category :: "'c option"

record ('a, 'c) FilePathFilterArgs =
  locations :: "'a option"
  hidden :: "bool option"
  object :: "('a, 'c) ObjectFilterArgs option"

record ('a, 'c) MappedFilters =
  queryParams :: "('a, 'c) FilePathFilterArgs"
  objectFilters :: "('a, 'c) ObjectFilterArgs"

definition mapFilter_step ::
  "('a option \<Rightarrow> 'n \<Rightarrow> bool \<Rightarrow> 'a) \<Rightarrow> ('c option \<Rightarrow> string \<Rightarrow> bool \<Rightarrow> 'c) \<Rightarrow> (string \<Rightarrow> 'n) \<Rightarrow>
   SetFilter \<Rightarrow> ('a, 'c) MappedFilters \<Rightarrow> ('a, 'c) MappedFilters" where
  "mapFilter_step inOrNotIn inOrNotIn_cat parseInt f acc =
     (case type f of
        Location \<Rightarrow>
          acc\<lparr>queryParams := (queryParams acc)
                \<lparr>locations := Some (inOrNotIn (locations (queryParams acc))
                                       (parseInt (value f)) (condition f))\<rparr>\<rparr>
      | Tag \<Rightarrow>
          acc\<lparr>objectFilters := (objectFilters acc)
                \<lparr>tags := Some (inOrNotIn (tags (objectFilters acc))
                                  (parseInt (value f)) (condition f))\<rparr>\<rparr>
      | Kind \<Rightarrow>
          acc\<lparr>objectFilters := (objectFilters acc)
                \<lparr>kind := Some (inOrNotIn (kind (objectFilters acc))
                                  (parseInt (value f)) (condition f))\<rparr>\<rparr>
      | Category \<Rightarrow>
          acc\<lparr>objectFilters := (objectFilters acc)
                \<lparr>category := Some (inOrNotIn_cat (category (objectFilters acc))
                                      (value f) (condition f))\<rparr>\<rparr>
      | Hidden \<Rightarrow>
          acc\<lparr>queryParams := (queryParams acc)\<lparr>hidden := Some (value f = ''true'')\<rparr>\<rparr>)"

definition mapFiltersToQueryParams ::
  "('a option \<Rightarrow> 'n \<Rightarrow> bool \<Rightarrow> 'a) \<Rightarrow> ('c option \<Rightarrow> string \<Rightarrow> bool \<Rightarrow> 'c) \<Rightarrow> (string \<Rightarrow> 'n) \<Rightarrow>
   SetFilter list \<Rightarrow> ('a, 'c) MappedFilters" where
  "mapFiltersToQueryParams inOrNotIn inOrNotIn_cat parseInt fs =
     (let acc = fold (mapFilter_step inOrNotIn inOrNotIn_cat parseInt) fs
                  \<lparr>queryParams = \<lparr>locations = None, hidden = None, object = None\<rparr>,
                   objectFilters = \<lparr>tags = None, kind = None, category = None\<rparr>\<rparr>;
          ofs = objectFilters acc
      in if tags ofs \<noteq> None \<or> kind ofs \<noteq> None \<or> category ofs \<noteq> None
         then acc\<lparr>queryParams := (queryParams acc)\<lparr>object := Some ofs\<rparr>\<rparr>
         else acc)"

text \<open>
  The closed examples below need some helper to run with. \<open>record_call\<close> appends each
  call's value and condition to the accumulated list, so it forgets nothing of the calls
  made; the examples parse with the identity.
\<close>

definition record_call :: "('v \<times> bool) list option \<Rightarrow> 'v \<Rightarrow> bool \<Rightarrow> ('v \<times> bool) list" where
  "record_call acc v c = (case acc of None \<Rightarrow> [] | Some l \<Rightarrow> l) @ [(v, c)]"

subsection \<open>Notions used by the properties\<close>

text \<open>
  The filters that \<^verbatim>\<open>search.filters?.forEach\<close> visits: none when \<^verbatim>\<open>filters\<close> is
  missing.
\<close>

definition saved_filters :: "SavedSearch \<Rightarrow> SavedSearchFilter list" where
  "saved_filters search = (case filters search of None \<Rightarrow> [] | Some fs \<Rightarrow> fs)"

text \<open>
  The containment of the selection in the registry: every key of the selection is a key
  of the registry.
\<close>

definition selection_registered :: "SearchStore \<Rightarrow> bool" where
  "selection_registered s =
     list_all (Map_has (registeredFilters s)) (Map_keys (selectedFilters s))"

text \<open>
  Sequences of store operations, for the properties that speak of any sequence of them:
  selecting, deselecting, resetting, a run of the registration effect of
  \<^verbatim>\<open>useSearchFilter\<close>, and loading a saved search from a fetched list.
  \<open>selects_registered ops s\<close> says that, running \<open>ops\<close> from \<open>s\<close>, every
  \<^verbatim>\<open>selectFilter\<close> is called on a filter whose key is in the registry at that moment.
\<close>

datatype StoreOp =
    SelectFilter Filter bool bool
  | DeselectFilter Filter
  | ResetSearchStore
  | UseSearchFilter FilterType "FilterArgs list option"
  | LoadSearch "SavedSearch list" int

fun apply_op :: "StoreOp \<Rightarrow> SearchStore \<Rightarrow> SearchStore" where
  "apply_op (SelectFilter f c r) s = selectFilter f c r s"
| "apply_op (DeselectFilter f) s = deselectFilter f s"
| "apply_op ResetSearchStore s = resetSearchStore s"
| "apply_op (UseSearchFilter t as) s = useSearchFilter_effect t as s"
| "apply_op (LoadSearch searches i) s = loadSearch searches i s"

fun selects_registered :: "StoreOp list \<Rightarrow> SearchStore \<Rightarrow> bool" where
  "selects_registered [] s = True"
| "selects_registered (SelectFilter f c r # ops) s =
     (Map_has (registeredFilters s) (getKey f) \<and>
      selects_registered ops (apply_op (SelectFilter f c r) s))"
| "selects_registered (op # ops) s = selects_registered ops (apply_op op s)"

text \<open>Concrete filters, a saved search and a store for the examples.\<close>

definition home_filter :: Filter where
  "home_filter = \<lparr>value = ''1'', name = ''Home'', icon = None, type = Location\<rparr>"

definition work_args :: FilterArgs where
  "work_args = \<lparr>value = ''3'', name = ''Work'', icon = None\<rparr>"

definition work_filter :: Filter where
  "work_filter = \<lparr>value = ''3'', name = ''Work'', icon = None, type = Tag\<rparr>"

definition recent_search :: SavedSearch where
  "recent_search =
     \<lparr>search_id = 7, name = ''Recent'', description = [], icon = [],
      filters = Some [\<lparr>filter_type = Kind, name = ''Image'', value = ''5'', icon = None\<rparr>]\<rparr>"

definition work_store :: SearchStore where
  "work_store =
     selectFilter work_filter True True
       (useSearchFilter_effect Tag (Some [work_args]) searchStore)"

text \<open>
  A lower-casing to run the examples with: it maps the letters \<^verbatim>\<open>A\<close> to \<^verbatim>\<open>Z\<close> to
  \<^verbatim>\<open>a\<close> to \<^verbatim>\<open>z\<close> and keeps every other character. On strings of ASCII characters
  this is what \<^verbatim>\<open>toLowerCase\<close> computes; it stands for \<^verbatim>\<open>toLowerCase\<close> on such
  strings only.
\<close>

definition ascii_lower :: "string \<Rightarrow> string" where
  "ascii_lower s =
     map (\<lambda>c. let n = (of_char c :: nat) in if 65 \<le> n \<and> n \<le> 90 then char_of (n + 32) else c) s"

section \<open>Properties\<close>

subsection \<open>Maps after a loop of insertions\<close>

lemma map_of_fold_update:
  "map_of (fold (\<lambda>x. AList.update (kf x) (vf x)) xs m) k = Some v \<Longrightarrow>
     map_of m k = Some v \<or> (\<exists>x\<in>set xs. kf x = k \<and> vf x = v)"
  by (induction xs arbitrary: m) (fastforce simp: update_conv' split: if_splits)+

lemma keys_fold_update:
  "fst ` set (fold (\<lambda>x. AList.update (kf x) (vf x)) xs m) = fst ` set m \<union> kf ` set xs"
  by (induction xs arbitrary: m) (auto simp: dom_update)

lemma Map_has_keys: "Map_has m k \<longleftrightarrow> k \<in> fst ` set m"
  by (simp add: Map_has_def map_of_eq_None_iff)

lemma selectFilter_simps:
  "selectedFilters (selectFilter f c r s) = Map_set (getKey f) (spread_SetFilter f c r) (selectedFilters s)"
  "registeredFilters (selectFilter f c r s) = registeredFilters s"
  "searchQuery (selectFilter f c r s) = searchQuery s"
  by (simp_all add: selectFilter_def)

lemmas example_defs = home_filter_def work_args_def work_filter_def recent_search_def
  work_store_def

lemmas store_defs = searchStore_def selectFilter_def getKey_def spread_SetFilter_def
  useSearchFilter_effect_def useSearchFilter_def register_step_def Map_has_def
  Filter.truncate_def useSearchFilters_effect_def resetSearchStore_def fixedFilter_step_def
  fixedFilter_icon_def Let_def loadSearch_def loadSearch_step_def loadSearch_filter_def
  deselectFilter_def

subsection \<open>Deselecting\<close>

text \<open>
  C4. \<^verbatim>\<open>deselectFilter(f)\<close> leaves the store as it is when the entry under the
  composite key of \<open>f\<close> is protected (\<^verbatim>\<open>canBeRemoved\<close> is false). In every other
  case the entry under that key is gone afterwards, every other entry and the order of
  the keys are kept, and nothing but the selection changes. The function is total: no
  case raises an error.
\<close>

theorem deselectFilter_contract:
  "((\<exists>e. Map_get (selectedFilters s) (getKey f) = Some e \<and> canBeRemoved e = False) \<longrightarrow>
      deselectFilter f s = s) \<and>
   (\<not> (\<exists>e. Map_get (selectedFilters s) (getKey f) = Some e \<and> canBeRemoved e = False) \<longrightarrow>
      Map_get (selectedFilters (deselectFilter f s))
        = (Map_get (selectedFilters s))(getKey f := None) \<and>
      Map_keys (selectedFilters (deselectFilter f s))
        = removeAll (getKey f) (Map_keys (selectedFilters s)) \<and>
      deselectFilter f s = s\<lparr>selectedFilters := selectedFilters (deselectFilter f s)\<rparr>)"
  by (auto simp: deselectFilter_def Let_def delete_conv' delete_keys)

theorem deselectFilter_contract_witness:
  "deselectFilter \<lparr>value = ''1'', name = ''Home'', icon = None, type = Location\<rparr>
     (selectFilter \<lparr>value = ''1'', name = ''Home'', icon = None, type = Location\<rparr>
        True False searchStore)
   = selectFilter \<lparr>value = ''1'', name = ''Home'', icon = None, type = Location\<rparr>
       True False searchStore
   \<and> Map_get
       (selectedFilters
         (deselectFilter \<lparr>value = ''3'', name = ''Work'', icon = None, type = Tag\<rparr>
           (selectFilter \<lparr>value = ''3'', name = ''Work'', icon = None, type = Tag\<rparr>
              True True searchStore)))
       ''Tag-Work-3'' = None"
  using
    deselectFilter_contract
      [of "selectFilter \<lparr>value = ''1'', name = ''Home'', icon = None, type = Location\<rparr>
             True False searchStore"
          "\<lparr>value = ''1'', name = ''Home'', icon = None, type = Location\<rparr>"]
    deselectFilter_contract
      [of "selectFilter \<lparr>value = ''3'', name = ''Work'', icon = None, type = Tag\<rparr>
             True True searchStore"
          "\<lparr>value = ''3'', name = ''Work'', icon = None, type = Tag\<rparr>"]
  by (simp add: selectFilter_def searchStore_def getKey_def spread_SetFilter_def)

subsection \<open>Protected entries\<close>

lemma deselect_keeps:
  "Map_get (selectedFilters s) k = Some e \<Longrightarrow> canBeRemoved e = False \<Longrightarrow>
   Map_get (selectedFilters (deselectFilter g s)) k = Some e"
  by (auto simp: deselectFilter_def Let_def delete_conv')

text \<open>
  C3, as the code has it. Deselecting, any number of times and with any filters, never
  removes an entry of the selection whose \<^verbatim>\<open>canBeRemoved\<close> is false: the entry stays
  under its key, unchanged.
\<close>

theorem deselectFilter_keeps_protected:
  "Map_get (selectedFilters s) k = Some e \<Longrightarrow> canBeRemoved e = False \<Longrightarrow>
   Map_get (selectedFilters (fold deselectFilter gs s)) k = Some e"
  by (induction gs arbitrary: s) (simp_all add: deselect_keeps)

theorem deselectFilter_keeps_protected_witness:
  "Map_get (selectedFilters (useSearchFilters_effect (Some [home_filter]) searchStore))
     ''Location-Home-1''
     = Some \<lparr>value = ''1'', name = ''Home'', icon = Some ''Home'', type = Location,
             condition = True, canBeRemoved = False\<rparr> \<and>
   Map_get
     (selectedFilters
       (fold deselectFilter [home_filter, work_filter, home_filter]
         (useSearchFilters_effect (Some [home_filter]) searchStore)))
     ''Location-Home-1''
     = Some \<lparr>value = ''1'', name = ''Home'', icon = Some ''Home'', type = Location,
             condition = True, canBeRemoved = False\<rparr>"
proof -
  have a: "Map_get (selectedFilters (useSearchFilters_effect (Some [home_filter]) searchStore))
     ''Location-Home-1''
     = Some \<lparr>value = ''1'', name = ''Home'', icon = Some ''Home'', type = Location,
             condition = True, canBeRemoved = False\<rparr>"
    by (simp add: example_defs store_defs)
  from deselectFilter_keeps_protected [OF a, of "[home_filter, work_filter, home_filter]"] a
  show ?thesis by simp
qed

text \<open>
  The other two operations do remove it. After the fixed filter Home is selected as not
  removable, \<^verbatim>\<open>resetSearchStore\<close> empties the selection, and so does \<^verbatim>\<open>loadSearch\<close>
  of a saved search that is found.
\<close>

theorem protected_entry_cleared_counterexample:
  "Map_get
     (selectedFilters
       (useSearchFilters_effect
          (Some [\<lparr>value = ''1'', name = ''Home'', icon = None, type = Location\<rparr>]) searchStore))
     ''Location-Home-1''
   = Some \<lparr>value = ''1'', name = ''Home'', icon = Some ''Home'', type = Location,
           condition = True, canBeRemoved = False\<rparr> \<and>
   Map_get
     (selectedFilters
       (resetSearchStore
         (useSearchFilters_effect
            (Some [\<lparr>value = ''1'', name = ''Home'', icon = None, type = Location\<rparr>])
            searchStore)))
     ''Location-Home-1'' = None \<and>
   Map_get
     (selectedFilters
       (loadSearch
         [\<lparr>search_id = 7, name = ''Recent'', description = '''', icon = '''', filters = Some []\<rparr>] 7
         (useSearchFilters_effect
            (Some [\<lparr>value = ''1'', name = ''Home'', icon = None, type = Location\<rparr>])
            searchStore)))
     ''Location-Home-1'' = None"
  by (simp add: useSearchFilters_effect_def resetSearchStore_def fixedFilter_step_def
      fixedFilter_icon_def Let_def selectFilter_def getKey_def spread_SetFilter_def
      searchStore_def loadSearch_def)

subsection \<open>Fixed filters\<close>

lemma getKey_fixedFilter_icon: "getKey (fixedFilter_icon f) = getKey f"
  by (simp add: getKey_def fixedFilter_icon_def)

lemma fixed_selected:
  "selectedFilters (fold fixedFilter_step fs s) =
     fold (\<lambda>f. Map_set (getKey f) (spread_SetFilter (fixedFilter_icon f) True False))
       (filter (\<lambda>f. name f \<noteq> []) fs) (selectedFilters s)"
  by (induction fs arbitrary: s)
     (simp_all add: fixedFilter_step_def selectFilter_simps getKey_fixedFilter_icon Let_def)

lemma fixed_registered:
  "Map_has (registeredFilters s) k \<Longrightarrow> Map_has (registeredFilters (fold fixedFilter_step fs s)) k"
  by (induction fs arbitrary: s)
     (auto simp: fixedFilter_step_def selectFilter_simps Let_def Map_has_keys dom_update)

lemma fixed_searchQuery:
  "searchQuery (fold fixedFilter_step fs s) = searchQuery s"
  by (induction fs arbitrary: s)
     (simp_all add: fixedFilter_step_def selectFilter_simps Let_def)

lemma fixed_registry:
  "registeredFilters (fold fixedFilter_step fs s) =
     fold (\<lambda>f. Map_set (value f) (fixedFilter_icon f))
       (filter (\<lambda>f. name f \<noteq> []) fs) (registeredFilters s)"
  by (induction fs arbitrary: s)
     (simp_all add: fixedFilter_step_def selectFilter_simps fixedFilter_icon_def Let_def)

lemma fixedFilter_icon_fields:
  "fixedFilter_icon f =
     \<lparr>value = value f, name = name f,
      icon = (if icon f = None \<or> icon f = Some [] then Some (name f) else icon f),
      type = type f\<rparr>"
  by (simp add: fixedFilter_icon_def)

lemma fixed_entry_fields:
  "spread_SetFilter (fixedFilter_icon f) c r =
     \<lparr>value = value f, name = name f,
      icon = (if icon f = None \<or> icon f = Some [] then Some (name f) else icon f),
      type = type f, condition = c, canBeRemoved = r\<rparr>"
  by (simp add: fixedFilter_icon_def spread_SetFilter_def)

lemma update_stores: "v \<in> snd ` set (AList.update k v al)"
  by (induction al) (auto simp: image_iff)

text \<open>
  C2, as the code has it. The effect of \<^verbatim>\<open>useSearchFilters\<close> on a list of fixed filters
  clears the search query and the prior selection, and not the registry: every key
  registered before is registered afterwards. The selection then holds exactly the fixed
  filters with a non-empty name, in their order, each under its composite key, with its
  value, name and type, a missing or empty icon filled from the name, \<^verbatim>\<open>condition\<close>
  true and \<^verbatim>\<open>canBeRemoved\<close> false. The effect also stores each of these filters, with
  the icon filled, in the registry, in their order, each under a key taken from the
  filter; which key that is, is left open.
\<close>

theorem useSearchFilters_effect_post:
  "searchQuery (useSearchFilters_effect (Some fs) s) = None \<and>
   selectedFilters (useSearchFilters_effect (Some fs) s) =
     fold (\<lambda>f. Map_set (getKey f)
                 \<lparr>value = value f, name = name f,
                  icon = (if icon f = None \<or> icon f = Some [] then Some (name f) else icon f),
                  type = type f, condition = True, canBeRemoved = False\<rparr>)
       (filter (\<lambda>f. name f \<noteq> []) fs) [] \<and>
   set (Map_keys (selectedFilters (useSearchFilters_effect (Some fs) s)))
     = getKey ` {f \<in> set fs. name f \<noteq> []} \<and>
   (\<forall>k e. Map_get (selectedFilters (useSearchFilters_effect (Some fs) s)) k = Some e \<longrightarrow>
      (\<exists>f\<in>set fs. name f \<noteq> [] \<and> k = getKey f \<and>
         e = \<lparr>value = value f, name = name f,
              icon = (if icon f = None \<or> icon f = Some [] then Some (name f) else icon f),
              type = type f, condition = True, canBeRemoved = False\<rparr>)) \<and>
   (\<exists>key. registeredFilters (useSearchFilters_effect (Some fs) s) =
      fold (\<lambda>f. Map_set (key f)
                  \<lparr>value = value f, name = name f,
                   icon = (if icon f = None \<or> icon f = Some [] then Some (name f) else icon f),
                   type = type f\<rparr>)
        (filter (\<lambda>f. name f \<noteq> []) fs) (registeredFilters s)) \<and>
   (\<forall>k. Map_has (registeredFilters s) k \<longrightarrow>
      Map_has (registeredFilters (useSearchFilters_effect (Some fs) s)) k)"
proof -
  let ?s' = "useSearchFilters_effect (Some fs) s"
  let ?entry = "\<lambda>f. \<lparr>value = value f, name = name f,
                  icon = (if icon f = None \<or> icon f = Some [] then Some (name f) else icon f),
                  type = type f, condition = True, canBeRemoved = False\<rparr>"
  let ?stored = "\<lambda>f. \<lparr>value = value f, name = name f,
                   icon = (if icon f = None \<or> icon f = Some [] then Some (name f) else icon f),
                   type = type f\<rparr>"
  have sel: "selectedFilters ?s' =
     fold (\<lambda>f. Map_set (getKey f) (?entry f)) (filter (\<lambda>f. name f \<noteq> []) fs) []"
    by (simp add: useSearchFilters_effect_def resetSearchStore_def fixed_selected
        fixed_entry_fields)
  have q: "searchQuery ?s' = None"
    by (simp add: useSearchFilters_effect_def resetSearchStore_def fixed_searchQuery)
  have keys: "set (Map_keys (selectedFilters ?s')) = getKey ` {f \<in> set fs. name f \<noteq> []}"
    by (simp add: sel keys_fold_update)
  have ent: "\<exists>f\<in>set fs. name f \<noteq> [] \<and> k = getKey f \<and> e = ?entry f"
    if "Map_get (selectedFilters ?s') k = Some e" for k e
    using map_of_fold_update [OF that [unfolded sel]] by auto
  have "registeredFilters ?s' =
      fold (\<lambda>f. Map_set (value f) (?stored f)) (filter (\<lambda>f. name f \<noteq> []) fs)
        (registeredFilters s)"
    by (simp add: useSearchFilters_effect_def resetSearchStore_def fixed_registry
        fixedFilter_icon_fields)
  then have stored: "\<exists>key. registeredFilters ?s' =
      fold (\<lambda>f. Map_set (key f) (?stored f)) (filter (\<lambda>f. name f \<noteq> []) fs)
        (registeredFilters s)"
    by (rule exI [of _ "value"])
  have reg: "Map_has (registeredFilters ?s') k" if "Map_has (registeredFilters s) k" for k
    using that by (simp add: useSearchFilters_effect_def resetSearchStore_def fixed_registered)
  show ?thesis using sel q keys ent stored reg by blast
qed

theorem useSearchFilters_effect_post_witness:
  "Map_has (registeredFilters work_store) ''Tag-Work-3'' \<and>
   Map_has (registeredFilters (useSearchFilters_effect (Some [home_filter]) work_store))
     ''Tag-Work-3'' \<and>
   selectedFilters (useSearchFilters_effect (Some [home_filter]) work_store)
     = [(''Location-Home-1'',
         \<lparr>value = ''1'', name = ''Home'', icon = Some ''Home'', type = Location,
          condition = True, canBeRemoved = False\<rparr>)] \<and>
   \<lparr>value = ''1'', name = ''Home'', icon = Some ''Home'', type = Location\<rparr>
     \<in> snd ` set (registeredFilters (useSearchFilters_effect (Some [home_filter]) work_store))"
proof -
  let ?s' = "useSearchFilters_effect (Some [home_filter]) work_store"
  have a: "Map_has (registeredFilters work_store) ''Tag-Work-3''"
    by (simp add: example_defs store_defs)
  note post = useSearchFilters_effect_post [of "[home_filter]" work_store]
  from post have "selectedFilters ?s' =
     fold (\<lambda>f. Map_set (getKey f)
                 \<lparr>value = value f, name = name f,
                  icon = (if icon f = None \<or> icon f = Some [] then Some (name f) else icon f),
                  type = type f, condition = True, canBeRemoved = False\<rparr>)
       (filter (\<lambda>f. name f \<noteq> []) [home_filter]) []"
    by (rule conjunct1 [OF conjunct2])
  then have sel: "selectedFilters ?s'
     = [(''Location-Home-1'',
         \<lparr>value = ''1'', name = ''Home'', icon = Some ''Home'', type = Location,
          condition = True, canBeRemoved = False\<rparr>)]"
    by (simp add: home_filter_def getKey_def)
  from post obtain key where "registeredFilters ?s' =
      fold (\<lambda>f. Map_set (key f)
                  \<lparr>value = value f, name = name f,
                   icon = (if icon f = None \<or> icon f = Some [] then Some (name f) else icon f),
                   type = type f\<rparr>)
        (filter (\<lambda>f. name f \<noteq> []) [home_filter]) (registeredFilters work_store)"
    by (elim conjE exE)
  then have "registeredFilters ?s' =
      Map_set (key home_filter)
        \<lparr>value = ''1'', name = ''Home'', icon = Some ''Home'', type = Location\<rparr>
        (registeredFilters work_store)"
    by (simp add: home_filter_def)
  then have st: "\<lparr>value = ''1'', name = ''Home'', icon = Some ''Home'', type = Location\<rparr>
     \<in> snd ` set (registeredFilters ?s')"
    by (simp only: update_stores)
  from post have "\<forall>k. Map_has (registeredFilters work_store) k \<longrightarrow>
       Map_has (registeredFilters ?s') k"
    by (elim conjE)
  with a have c: "Map_has (registeredFilters ?s') ''Tag-Work-3''" by blast
  show ?thesis using a c sel st by (intro conjI)
qed

text \<open>
  The registry is not cleared: a filter registered before the effect runs is still in
  the registry afterwards, in front of what the effect adds.
\<close>

theorem registry_not_cleared_counterexample:
  "registeredFilters
     (useSearchFilters_effect
        (Some [\<lparr>value = ''1'', name = ''Home'', icon = None, type = Location\<rparr>])
        (useSearchFilter_effect Tag (Some [\<lparr>value = ''3'', name = ''Work'', icon = None\<rparr>])
           searchStore))
   = [(''Tag-Work-3'', \<lparr>value = ''3'', name = ''Work'', icon = None, type = Tag\<rparr>),
      (''1'', \<lparr>value = ''1'', name = ''Home'', icon = Some ''Home'', type = Location\<rparr>)]"
  by (simp add: store_defs)

subsection \<open>Saved searches\<close>

lemma load_selected:
  "selectedFilters (fold loadSearch_step fs s) =
     fold (\<lambda>sf. Map_set (getKey (loadSearch_filter sf))
                  (spread_SetFilter (loadSearch_filter sf) True True)) fs (selectedFilters s)"
  by (induction fs arbitrary: s) (simp_all add: loadSearch_step_def selectFilter_simps Let_def)

lemma load_registered:
  "registeredFilters (fold loadSearch_step fs s) =
     fold (\<lambda>sf. Map_set (getKey (loadSearch_filter sf)) (loadSearch_filter sf)) fs
       (registeredFilters s)"
  by (induction fs arbitrary: s) (simp_all add: loadSearch_step_def selectFilter_simps Let_def)

lemma loadSearch_found:
  "find (\<lambda>x. search_id x = i) searches = Some search \<Longrightarrow>
   loadSearch searches i s = fold loadSearch_step (saved_filters search) (s\<lparr>selectedFilters := []\<rparr>)"
  by (simp add: loadSearch_def saved_filters_def split: option.splits)

lemma load_searchQuery:
  "searchQuery (fold loadSearch_step fs s) = searchQuery s"
  by (induction fs arbitrary: s) (simp_all add: loadSearch_step_def selectFilter_simps Let_def)

text \<open>
  C9. When no saved search of the fetched list has the id, \<^verbatim>\<open>loadSearch\<close> leaves the
  store unchanged. When one has, the selection afterwards is what an empty selection
  becomes when, for each filter of that search in order, the entry with the saved
  \<^verbatim>\<open>value\<close> and \<^verbatim>\<open>name\<close>, the saved \<^verbatim>\<open>filter_type\<close> as \<^verbatim>\<open>type\<close>, the saved icon
  or the empty string for a missing one, \<^verbatim>\<open>condition\<close> true and \<^verbatim>\<open>canBeRemoved\<close>
  true is set under the composite key of that filter; the registry is the prior registry
  with the same filters set under the same keys; the search query is kept. So the keys of
  the selection are exactly the composite keys of the search's filters, every entry is
  one of them, each of them is registered, and nothing that was selected before the load
  and is not in the saved search is selected after it.
\<close>

theorem loadSearch_replaces:
  "(find (\<lambda>x. search_id x = i) searches = None \<longrightarrow> loadSearch searches i s = s) \<and>
   (\<forall>search. find (\<lambda>x. search_id x = i) searches = Some search \<longrightarrow>
      (let loaded = (\<lambda>sf. \<lparr>value = SavedSearchFilter.value sf, name = SavedSearchFilter.name sf,
                            icon = Some (case SavedSearchFilter.icon sf of
                                           None \<Rightarrow> [] | Some i \<Rightarrow> i),
                            type = filter_type sf\<rparr>);
           entry = (\<lambda>sf. \<lparr>value = SavedSearchFilter.value sf, name = SavedSearchFilter.name sf,
                           icon = Some (case SavedSearchFilter.icon sf of
                                          None \<Rightarrow> [] | Some i \<Rightarrow> i),
                           type = filter_type sf, condition = True, canBeRemoved = True\<rparr>);
           s' = loadSearch searches i s
       in selectedFilters s' =
            fold (\<lambda>sf. Map_set (getKey (loaded sf)) (entry sf)) (saved_filters search) [] \<and>
          registeredFilters s' =
            fold (\<lambda>sf. Map_set (getKey (loaded sf)) (loaded sf)) (saved_filters search)
              (registeredFilters s) \<and>
          searchQuery s' = searchQuery s \<and>
          set (Map_keys (selectedFilters s'))
            = (\<lambda>sf. getKey (loaded sf)) ` set (saved_filters search) \<and>
          (\<forall>k e. Map_get (selectedFilters s') k = Some e \<longrightarrow>
             (\<exists>sf\<in>set (saved_filters search). k = getKey (loaded sf) \<and> e = entry sf)) \<and>
          (\<forall>sf\<in>set (saved_filters search).
             Map_has (registeredFilters s') (getKey (loaded sf)))))"
proof (intro conjI allI impI)
  assume "find (\<lambda>x. search_id x = i) searches = None"
  then show "loadSearch searches i s = s" by (simp add: loadSearch_def)
next
  fix search assume f: "find (\<lambda>x. search_id x = i) searches = Some search"
  let ?loaded = "\<lambda>sf. \<lparr>value = SavedSearchFilter.value sf, name = SavedSearchFilter.name sf,
                            icon = Some (case SavedSearchFilter.icon sf of
                                           None \<Rightarrow> [] | Some i \<Rightarrow> i),
                            type = filter_type sf\<rparr>"
  let ?entry = "\<lambda>sf. \<lparr>value = SavedSearchFilter.value sf, name = SavedSearchFilter.name sf,
                           icon = Some (case SavedSearchFilter.icon sf of
                                          None \<Rightarrow> [] | Some i \<Rightarrow> i),
                           type = filter_type sf, condition = True, canBeRemoved = True\<rparr>"
  let ?s' = "loadSearch searches i s"
  have ld: "loadSearch_filter = ?loaded"
    by (rule ext) (simp add: loadSearch_filter_def)
  have sel: "selectedFilters ?s' =
        fold (\<lambda>sf. Map_set (getKey (?loaded sf)) (?entry sf)) (saved_filters search) []"
    by (simp add: loadSearch_found [OF f] load_selected ld spread_SetFilter_def)
  have reg: "registeredFilters ?s' =
        fold (\<lambda>sf. Map_set (getKey (?loaded sf)) (?loaded sf)) (saved_filters search)
          (registeredFilters s)"
    by (simp add: loadSearch_found [OF f] load_registered ld)
  have q: "searchQuery ?s' = searchQuery s"
    by (simp add: loadSearch_found [OF f] load_searchQuery)
  have keys: "set (Map_keys (selectedFilters ?s'))
        = (\<lambda>sf. getKey (?loaded sf)) ` set (saved_filters search)"
    by (simp add: sel keys_fold_update)
  have has: "\<forall>sf\<in>set (saved_filters search).
         Map_has (registeredFilters ?s') (getKey (?loaded sf))"
    by (simp add: reg Map_has_keys keys_fold_update)
  have ent: "\<exists>sf\<in>set (saved_filters search). k = getKey (?loaded sf) \<and> e = ?entry sf"
    if "Map_get (selectedFilters ?s') k = Some e" for k e
    using map_of_fold_update [OF that [unfolded sel]] by auto
  show "let loaded = ?loaded; entry = ?entry; s' = ?s'
       in selectedFilters s' =
            fold (\<lambda>sf. Map_set (getKey (loaded sf)) (entry sf)) (saved_filters search) [] \<and>
          registeredFilters s' =
            fold (\<lambda>sf. Map_set (getKey (loaded sf)) (loaded sf)) (saved_filters search)
              (registeredFilters s) \<and>
          searchQuery s' = searchQuery s \<and>
          set (Map_keys (selectedFilters s'))
            = (\<lambda>sf. getKey (loaded sf)) ` set (saved_filters search) \<and>
          (\<forall>k e. Map_get (selectedFilters s') k = Some e \<longrightarrow>
             (\<exists>sf\<in>set (saved_filters search). k = getKey (loaded sf) \<and> e = entry sf)) \<and>
          (\<forall>sf\<in>set (saved_filters search).
             Map_has (registeredFilters s') (getKey (loaded sf)))"
    unfolding Let_def using sel reg q keys ent has by blast
qed

theorem loadSearch_replaces_witness:
  "find (\<lambda>x. search_id x = 7) [recent_search] = Some recent_search \<and>
   selectedFilters (loadSearch [recent_search] 7 work_store)
     = [(''Kind-Image-5'',
         \<lparr>value = ''5'', name = ''Image'', icon = Some [], type = Kind,
          condition = True, canBeRemoved = True\<rparr>)] \<and>
   registeredFilters (loadSearch [recent_search] 7 work_store)
     = [(''Tag-Work-3'', \<lparr>value = ''3'', name = ''Work'', icon = None, type = Tag\<rparr>),
        (''Kind-Image-5'', \<lparr>value = ''5'', name = ''Image'', icon = Some [], type = Kind\<rparr>)] \<and>
   find (\<lambda>x. search_id x = 8) [recent_search] = None \<and>
   loadSearch [recent_search] 8 work_store = work_store"
proof -
  have a: "find (\<lambda>x. search_id x = 7) [recent_search] = Some recent_search"
    by (simp add: recent_search_def)
  have b: "find (\<lambda>x. search_id x = 8) [recent_search] = None"
    by (simp add: recent_search_def)
  have c: "saved_filters recent_search
     = [\<lparr>filter_type = Kind, name = ''Image'', value = ''5'', icon = None\<rparr>]"
    by (simp add: saved_filters_def recent_search_def)
  have r: "registeredFilters work_store
     = [(''Tag-Work-3'', \<lparr>value = ''3'', name = ''Work'', icon = None, type = Tag\<rparr>)]"
    by (simp add: example_defs store_defs)
  from loadSearch_replaces [of 8 "[recent_search]" work_store] b
  have d: "loadSearch [recent_search] 8 work_store = work_store"
    by (elim conjE) (rule mp)
  note found = loadSearch_replaces [of 7 "[recent_search]" work_store,
      THEN conjunct2, THEN spec, THEN mp, OF a, unfolded Let_def]
  have sel: "selectedFilters (loadSearch [recent_search] 7 work_store)
     = [(''Kind-Image-5'',
         \<lparr>value = ''5'', name = ''Image'', icon = Some [], type = Kind,
          condition = True, canBeRemoved = True\<rparr>)]"
    using found [THEN conjunct1] by (simp add: c getKey_def)
  have reg: "registeredFilters (loadSearch [recent_search] 7 work_store)
     = [(''Tag-Work-3'', \<lparr>value = ''3'', name = ''Work'', icon = None, type = Tag\<rparr>),
        (''Kind-Image-5'', \<lparr>value = ''5'', name = ''Image'', icon = Some [], type = Kind\<rparr>)]"
    using found [THEN conjunct2, THEN conjunct1] by (simp add: c r getKey_def)
  show ?thesis using a b d sel reg by (intro conjI)
qed

subsection \<open>Registration\<close>

lemma register_step_has:
  "Map_has (registeredFilters s) (key f) \<Longrightarrow> register_step f s = s"
  by (simp add: register_step_def)

lemma register_step_mono:
  "Map_has (registeredFilters s) k \<Longrightarrow> Map_has (registeredFilters (register_step f s)) k"
  by (auto simp: register_step_def Map_has_keys dom_update)

lemma register_step_adds: "Map_has (registeredFilters (register_step f s)) (key f)"
  by (auto simp: register_step_def Map_has_keys dom_update)

lemma register_fold_mono:
  "Map_has (registeredFilters s) k \<Longrightarrow> Map_has (registeredFilters (fold register_step fs s)) k"
  by (induction fs arbitrary: s) (simp_all add: register_step_mono)

lemma register_fold_adds:
  "f \<in> set fs \<Longrightarrow> Map_has (registeredFilters (fold register_step fs s)) (key f)"
  by (induction fs arbitrary: s) (auto simp: register_step_adds register_fold_mono)

lemma register_fold_id:
  "\<forall>f\<in>set fs. Map_has (registeredFilters s) (key f) \<Longrightarrow> fold register_step fs s = s"
  by (induction fs arbitrary: s) (simp_all add: register_step_has)

lemma register_step_keeps:
  "Map_get (registeredFilters s) k = Some f \<Longrightarrow>
   Map_get (registeredFilters (register_step g s)) k = Some f"
  by (auto simp: register_step_def Map_has_def update_conv')

lemma register_fold_keeps:
  "Map_get (registeredFilters s) k = Some f \<Longrightarrow>
   Map_get (registeredFilters (fold register_step fs s)) k = Some f"
  by (induction fs arbitrary: s) (simp_all add: register_step_keeps)

lemma register_fold_rest:
  "selectedFilters (fold register_step fs s) = selectedFilters s"
  by (induction fs arbitrary: s) (simp_all add: register_step_def)

text \<open>
  C8. Running the registration effect of \<^verbatim>\<open>useSearchFilter\<close> a second time on the
  same arguments changes nothing, and a run of it never changes the filter stored under
  a key that was in the registry already.
\<close>

theorem useSearchFilter_effect_idempotent:
  "useSearchFilter_effect t filterArgs (useSearchFilter_effect t filterArgs s)
     = useSearchFilter_effect t filterArgs s \<and>
   (\<forall>k f. Map_get (registeredFilters s) k = Some f \<longrightarrow>
      Map_get (registeredFilters (useSearchFilter_effect t filterArgs s)) k = Some f)"
  by (simp add: useSearchFilter_effect_def register_fold_id register_fold_adds register_fold_keeps)

theorem useSearchFilter_effect_idempotent_witness:
  "Map_get (registeredFilters work_store) ''Tag-Work-3'' = Some work_filter \<and>
   Map_get
     (registeredFilters
       (useSearchFilter_effect Tag
          (Some [\<lparr>value = ''3'', name = ''Work'', icon = Some ''Briefcase''\<rparr>]) work_store))
     ''Tag-Work-3'' = Some work_filter \<and>
   useSearchFilter_effect Tag (Some [work_args])
     (useSearchFilter_effect Tag (Some [work_args]) searchStore)
   = useSearchFilter_effect Tag (Some [work_args]) searchStore"
proof -
  have a: "Map_get (registeredFilters work_store) ''Tag-Work-3'' = Some work_filter"
    by (simp add: example_defs store_defs)
  from useSearchFilter_effect_idempotent
         [of Tag "Some [\<lparr>value = ''3'', name = ''Work'', icon = Some ''Briefcase''\<rparr>]" work_store]
       useSearchFilter_effect_idempotent [of Tag "Some [work_args]" searchStore] a
  show ?thesis by simp
qed

subsection \<open>The selection and the registry\<close>

lemma selection_registered_iff:
  "selection_registered s \<longleftrightarrow> fst ` set (selectedFilters s) \<subseteq> fst ` set (registeredFilters s)"
  by (auto simp: selection_registered_def list_all_iff Map_has_keys)

lemma inv_select:
  "selection_registered s \<Longrightarrow> Map_has (registeredFilters s) (getKey f) \<Longrightarrow>
   selection_registered (selectFilter f c r s)"
  by (auto simp: selection_registered_iff selectFilter_simps dom_update Map_has_keys)

lemma inv_deselect: "selection_registered s \<Longrightarrow> selection_registered (deselectFilter f s)"
proof -
  have "fst ` set (Map_delete (getKey f) (selectedFilters s)) \<subseteq> fst ` set (registeredFilters s)"
    if "fst ` set (selectedFilters s) \<subseteq> fst ` set (registeredFilters s)"
    by (rule order_trans [OF dom_delete_subset that])
  then show "selection_registered s \<Longrightarrow> selection_registered (deselectFilter f s)"
    by (simp add: selection_registered_iff deselectFilter_def Let_def)
qed

lemma inv_reset: "selection_registered (resetSearchStore s)"
  by (simp add: selection_registered_iff resetSearchStore_def)

lemma inv_register:
  "selection_registered s \<Longrightarrow> selection_registered (useSearchFilter_effect t as s)"
  unfolding selection_registered_def useSearchFilter_effect_def list_all_iff
  by (simp add: register_fold_rest register_fold_mono)

lemma inv_load:
  assumes "selection_registered s"
  shows "selection_registered (loadSearch searches i s)"
proof (cases "find (\<lambda>x. search_id x = i) searches")
  case None
  then show ?thesis using assms by (simp add: loadSearch_def)
next
  case (Some search)
  show ?thesis
    unfolding selection_registered_iff loadSearch_found [OF Some] load_selected load_registered
    by (auto simp: keys_fold_update)
qed

lemma inv_step:
  "selection_registered s \<Longrightarrow> selects_registered [op] s \<Longrightarrow> selection_registered (apply_op op s)"
  by (cases op) (auto simp: inv_select inv_deselect inv_reset inv_register inv_load)

text \<open>
  C1, as the code has it. \<^verbatim>\<open>selectFilter\<close> does not register. The containment of
  the selection in the registry is kept by every sequence of deselections, resets, runs
  of the registration effect, loads of saved searches and selections, provided each
  \<^verbatim>\<open>selectFilter\<close> is called on a filter whose composite key is in the registry when
  it is called.
\<close>

theorem selection_registered_preserved:
  "selection_registered s \<Longrightarrow> selects_registered ops s \<Longrightarrow>
   selection_registered (fold apply_op ops s)"
proof (induction ops arbitrary: s)
  case Nil
  then show ?case by simp
next
  case (Cons op ops)
  have step: "selection_registered (apply_op op s)"
    using Cons.prems by (intro inv_step) (cases op; simp)+
  have rest: "selects_registered ops (apply_op op s)"
    using Cons.prems(2) by (cases op) simp_all
  show ?case using Cons.IH [OF step rest] by simp
qed

theorem selection_registered_preserved_witness:
  "selection_registered searchStore \<and>
   selects_registered
     [UseSearchFilter Tag (Some [work_args]), SelectFilter work_filter True True,
      LoadSearch [recent_search] 7, DeselectFilter work_filter, ResetSearchStore] searchStore \<and>
   selection_registered
     (fold apply_op
       [UseSearchFilter Tag (Some [work_args]), SelectFilter work_filter True True,
        LoadSearch [recent_search] 7, DeselectFilter work_filter, ResetSearchStore] searchStore)"
proof -
  have a: "selection_registered searchStore"
    by (simp add: selection_registered_def searchStore_def)
  have b: "selects_registered
     [UseSearchFilter Tag (Some [work_args]), SelectFilter work_filter True True,
      LoadSearch [recent_search] 7, DeselectFilter work_filter, ResetSearchStore] searchStore"
    by (simp add: example_defs store_defs)
  from selection_registered_preserved [OF a b] a b show ?thesis by simp
qed

text \<open>
  On the empty store the containment holds. It fails after \<^verbatim>\<open>selectFilter\<close> on a
  filter that was not registered, and after the effect of \<^verbatim>\<open>useSearchFilters\<close> on one
  fixed filter, which stores the filter in the registry under its value and selects it
  under its composite key.
\<close>

theorem selectFilter_unregistered_counterexample:
  "selection_registered searchStore \<and>
   \<not> selection_registered
       (selectFilter \<lparr>value = ''3'', name = ''Work'', icon = None, type = Tag\<rparr> True True searchStore) \<and>
   \<not> selection_registered
       (useSearchFilters_effect
          (Some [\<lparr>value = ''1'', name = ''Home'', icon = None, type = Location\<rparr>]) searchStore)"
  by (simp add: selection_registered_def searchStore_def selectFilter_def getKey_def Map_has_def
      useSearchFilters_effect_def resetSearchStore_def fixedFilter_step_def fixedFilter_icon_def
      Let_def)

subsection \<open>Searching the registry\<close>

text \<open>
  C7. The search runs over the keys of the registry, and the effect of
  \<^verbatim>\<open>useSearchFilters\<close> stores a fixed filter under its value, not under its composite
  key. After that effect for the fixed filter Home of type Location with value \<^verbatim>\<open>1\<close>,
  the registry holds the filter under the key \<^verbatim>\<open>1\<close>; its composite key
  \<^verbatim>\<open>Location-Home-1\<close> contains the query \<^verbatim>\<open>home\<close> when both are put in lower case,
  and the search for \<^verbatim>\<open>home\<close> returns nothing. The same filter registered by the
  effect of \<^verbatim>\<open>useSearchFilter\<close>, under its composite key, is found. This holds for
  every lower-casing that maps the three strings involved as \<^verbatim>\<open>toLowerCase\<close> does.
\<close>

theorem searchRegisteredFilters_misses_fixed_filter:
  assumes "lower ''home'' = ''home''"
    and "lower ''1'' = ''1''"
    and "lower ''Location-Home-1'' = ''location-home-1''"
  shows
    "registeredFilters
       (useSearchFilters_effect
          (Some [\<lparr>value = ''1'', name = ''Home'', icon = None, type = Location\<rparr>]) searchStore)
     = [(''1'', \<lparr>value = ''1'', name = ''Home'', icon = Some ''Home'', type = Location\<rparr>)] \<and>
     getKey \<lparr>value = ''1'', name = ''Home'', icon = Some ''Home'', type = Location\<rparr>
     = ''Location-Home-1'' \<and>
     sublist (lower ''home'')
       (lower (getKey \<lparr>value = ''1'', name = ''Home'', icon = Some ''Home'', type = Location\<rparr>)) \<and>
     searchRegisteredFilters lower ''home''
       (useSearchFilters_effect
          (Some [\<lparr>value = ''1'', name = ''Home'', icon = None, type = Location\<rparr>]) searchStore)
     = [] \<and>
     searchRegisteredFilters lower ''home''
       (useSearchFilter_effect Location
          (Some [\<lparr>value = ''1'', name = ''Home'', icon = Some ''Home''\<rparr>]) searchStore)
     = [\<lparr>value = ''1'', name = ''Home'', icon = Some ''Home'', type = Location,
         key = ''Location-Home-1''\<rparr>]"
proof -
  have no: "\<not> sublist ''home'' ''1''" by code_simp
  have yes: "sublist ''home'' ''location-home-1''" by code_simp
  have reg: "registeredFilters
       (useSearchFilters_effect
          (Some [\<lparr>value = ''1'', name = ''Home'', icon = None, type = Location\<rparr>]) searchStore)
     = [(''1'', \<lparr>value = ''1'', name = ''Home'', icon = Some ''Home'', type = Location\<rparr>)]"
    by (simp add: store_defs)
  have k: "getKey \<lparr>value = ''1'', name = ''Home'', icon = Some ''Home'', type = Location\<rparr>
     = ''Location-Home-1''"
    by (simp add: getKey_def)
  have reg2: "registeredFilters
       (useSearchFilter_effect Location
          (Some [\<lparr>value = ''1'', name = ''Home'', icon = Some ''Home''\<rparr>]) searchStore)
     = [(''Location-Home-1'',
         \<lparr>value = ''1'', name = ''Home'', icon = Some ''Home'', type = Location\<rparr>)]"
    by (simp add: store_defs)
  have miss: "searchRegisteredFilters lower ''home''
       (useSearchFilters_effect
          (Some [\<lparr>value = ''1'', name = ''Home'', icon = None, type = Location\<rparr>]) searchStore)
     = []"
    by (simp add: searchRegisteredFilters_def reg assms no)
  have hit: "searchRegisteredFilters lower ''home''
       (useSearchFilter_effect Location
          (Some [\<lparr>value = ''1'', name = ''Home'', icon = Some ''Home''\<rparr>]) searchStore)
     = [\<lparr>value = ''1'', name = ''Home'', icon = Some ''Home'', type = Location,
         key = ''Location-Home-1''\<rparr>]"
    by (simp add: searchRegisteredFilters_def reg2 assms yes Filter.extend_def
        KeyedFilter.fields_def)
  show ?thesis using reg k miss hit by (simp add: assms yes)
qed

theorem searchRegisteredFilters_misses_fixed_filter_witness:
  "ascii_lower ''home'' = ''home'' \<and> ascii_lower ''1'' = ''1'' \<and>
   ascii_lower ''Location-Home-1'' = ''location-home-1'' \<and>
   searchRegisteredFilters ascii_lower ''home''
     (useSearchFilters_effect
        (Some [\<lparr>value = ''1'', name = ''Home'', icon = None, type = Location\<rparr>]) searchStore)
   = []"
proof -
  have a: "ascii_lower ''home'' = ''home''" by code_simp
  have b: "ascii_lower ''1'' = ''1''" by code_simp
  have c: "ascii_lower ''Location-Home-1'' = ''location-home-1''" by code_simp
  from searchRegisteredFilters_misses_fixed_filter [OF a b c] a b c
  show ?thesis by blast
qed

subsection \<open>Query parameters\<close>

lemma step_locations:
  "locations (queryParams (fold (mapFilter_step ion ionc pint) fs acc)) =
     fold (\<lambda>f a. Some (ion a (pint (value f)) (condition f)))
       (filter (\<lambda>f. type f = Location) fs) (locations (queryParams acc))"
  by (induction fs arbitrary: acc) (simp_all add: mapFilter_step_def split: FilterType.splits)

lemma step_tags:
  "tags (objectFilters (fold (mapFilter_step ion ionc pint) fs acc)) =
     fold (\<lambda>f a. Some (ion a (pint (value f)) (condition f)))
       (filter (\<lambda>f. type f = Tag) fs) (tags (objectFilters acc))"
  by (induction fs arbitrary: acc) (simp_all add: mapFilter_step_def split: FilterType.splits)

lemma step_kind:
  "kind (objectFilters (fold (mapFilter_step ion ionc pint) fs acc)) =
     fold (\<lambda>f a. Some (ion a (pint (value f)) (condition f)))
       (filter (\<lambda>f. type f = Kind) fs) (kind (objectFilters acc))"
  by (induction fs arbitrary: acc) (simp_all add: mapFilter_step_def split: FilterType.splits)

lemma step_category:
  "category (objectFilters (fold (mapFilter_step ion ionc pint) fs acc)) =
     fold (\<lambda>f a. Some (ionc a (value f) (condition f)))
       (filter (\<lambda>f. type f = Category) fs) (category (objectFilters acc))"
  by (induction fs arbitrary: acc) (simp_all add: mapFilter_step_def split: FilterType.splits)

lemma step_hidden:
  "hidden (queryParams (fold (mapFilter_step ion ionc pint) fs acc)) =
     fold (\<lambda>f a. Some (value f = ''true''))
       (filter (\<lambda>f. type f = Hidden) fs) (hidden (queryParams acc))"
  by (induction fs arbitrary: acc) (simp_all add: mapFilter_step_def split: FilterType.splits)

lemma step_object:
  "object (queryParams (fold (mapFilter_step ion ionc pint) fs acc)) = object (queryParams acc)"
  by (induction fs arbitrary: acc) (simp_all add: mapFilter_step_def split: FilterType.splits)

lemma fold_same_types:
  assumes "\<forall>t. filter (\<lambda>f. type f = t) fs = filter (\<lambda>f. type f = t) fs'"
  shows "fold (mapFilter_step ion ionc pint) fs acc = fold (mapFilter_step ion ionc pint) fs' acc"
proof -
  have "queryParams (fold (mapFilter_step ion ionc pint) fs acc)
        = queryParams (fold (mapFilter_step ion ionc pint) fs' acc)"
    by (rule FilePathFilterArgs.equality) (simp_all add: step_locations step_hidden step_object assms)
  moreover have "objectFilters (fold (mapFilter_step ion ionc pint) fs acc)
        = objectFilters (fold (mapFilter_step ion ionc pint) fs' acc)"
    by (rule ObjectFilterArgs.equality) (simp_all add: step_tags step_kind step_category assms)
  ultimately show ?thesis by (intro MappedFilters.equality) simp_all
qed

lemma fold_const_last:
  "fold (\<lambda>f a. Some (g f)) xs a0 = (if xs = [] then a0 else Some (g (last xs)))"
  by (induction xs rule: rev_induct) simp_all

lemma fold_Some_None:
  "fold (\<lambda>f a. Some (g f a)) xs None = None \<longleftrightarrow> xs = []"
  by (induction xs rule: rev_induct) simp_all

text \<open>
  C5, as the code has it. Each field of the output is computed from the filters of one
  type, in their order in the list. Two lists that have, for every filter type, the same
  filters of that type in the same order give the same output, whatever \<^verbatim>\<open>inOrNotIn\<close>
  and \<^verbatim>\<open>parseInt\<close> compute: moving filters of different types past one another
  changes nothing.
\<close>

theorem mapFiltersToQueryParams_order:
  assumes "\<forall>t. filter (\<lambda>f. type f = t) fs = filter (\<lambda>f. type f = t) fs'"
  shows "mapFiltersToQueryParams ion ionc pint fs = mapFiltersToQueryParams ion ionc pint fs'"
  by (simp add: mapFiltersToQueryParams_def fold_same_types [OF assms])

theorem mapFiltersToQueryParams_order_witness:
  "mapFiltersToQueryParams record_call record_call (\<lambda>v. v)
     [spread_SetFilter home_filter True False, spread_SetFilter work_filter False True]
   = mapFiltersToQueryParams record_call record_call (\<lambda>v. v)
     [spread_SetFilter work_filter False True, spread_SetFilter home_filter True False]"
proof -
  have "filter (\<lambda>f. type f = t)
          [spread_SetFilter home_filter True False, spread_SetFilter work_filter False True]
        = filter (\<lambda>f. type f = t)
          [spread_SetFilter work_filter False True, spread_SetFilter home_filter True False]" for t
    by (cases t) (simp_all add: example_defs spread_SetFilter_def)
  then show ?thesis by (intro mapFiltersToQueryParams_order) simp
qed

text \<open>
  Filters of the same type cannot be exchanged in general: of two Hidden filters the
  later one decides \<^verbatim>\<open>hidden\<close>, so the two orders of a Hidden filter with value
  \<^verbatim>\<open>true\<close> and one with value \<^verbatim>\<open>false\<close> give different outputs.
\<close>

theorem hidden_order_counterexample:
  "mapFiltersToQueryParams record_call record_call (\<lambda>v. v)
     [\<lparr>value = ''true'', name = ''Hidden'', icon = None, type = Hidden,
       condition = True, canBeRemoved = True\<rparr>,
      \<lparr>value = ''false'', name = ''Hidden'', icon = None, type = Hidden,
       condition = True, canBeRemoved = True\<rparr>]
   \<noteq> mapFiltersToQueryParams record_call record_call (\<lambda>v. v)
     [\<lparr>value = ''false'', name = ''Hidden'', icon = None, type = Hidden,
       condition = True, canBeRemoved = True\<rparr>,
      \<lparr>value = ''true'', name = ''Hidden'', icon = None, type = Hidden,
       condition = True, canBeRemoved = True\<rparr>]"
  by (simp add: mapFiltersToQueryParams_def mapFilter_step_def)

text \<open>
  C6. \<^verbatim>\<open>hidden\<close> is absent when the list has no Hidden filter, and otherwise says
  whether the value of the last Hidden filter is the string \<^verbatim>\<open>true\<close>. The
  \<^verbatim>\<open>object\<close> field of the query parameters is the object filters when one of
  \<^verbatim>\<open>tags\<close>, \<^verbatim>\<open>kind\<close> and \<^verbatim>\<open>category\<close> was assigned, and absent otherwise; it
  is absent exactly when the list has no Tag, Kind or Category filter.
\<close>

theorem mapFiltersToQueryParams_shape:
  "hidden (queryParams (mapFiltersToQueryParams ion ionc pint fs)) =
     (if filter (\<lambda>f. type f = Hidden) fs = [] then None
      else Some (value (last (filter (\<lambda>f. type f = Hidden) fs)) = ''true'')) \<and>
   object (queryParams (mapFiltersToQueryParams ion ionc pint fs)) =
     (if tags (objectFilters (mapFiltersToQueryParams ion ionc pint fs)) = None \<and>
         kind (objectFilters (mapFiltersToQueryParams ion ionc pint fs)) = None \<and>
         category (objectFilters (mapFiltersToQueryParams ion ionc pint fs)) = None
      then None
      else Some (objectFilters (mapFiltersToQueryParams ion ionc pint fs))) \<and>
   (object (queryParams (mapFiltersToQueryParams ion ionc pint fs)) = None \<longleftrightarrow>
      (\<forall>f\<in>set fs. type f \<noteq> Tag \<and> type f \<noteq> Kind \<and> type f \<noteq> Category))"
proof -
  let ?acc = "fold (mapFilter_step ion ionc pint) fs
                  \<lparr>queryParams = \<lparr>locations = None, hidden = None, object = None\<rparr>,
                   objectFilters = \<lparr>tags = None, kind = None, category = None\<rparr>\<rparr>"
  have t: "tags (objectFilters ?acc) = None \<longleftrightarrow> (\<forall>f\<in>set fs. type f \<noteq> Tag)"
    using fold_Some_None [of "\<lambda>f a. ion a (pint (value f)) (condition f)" "filter (\<lambda>f. type f = Tag) fs"]
    by (simp add: step_tags filter_empty_conv)
  have k: "kind (objectFilters ?acc) = None \<longleftrightarrow> (\<forall>f\<in>set fs. type f \<noteq> Kind)"
    using fold_Some_None [of "\<lambda>f a. ion a (pint (value f)) (condition f)" "filter (\<lambda>f. type f = Kind) fs"]
    by (simp add: step_kind filter_empty_conv)
  have c: "category (objectFilters ?acc) = None \<longleftrightarrow> (\<forall>f\<in>set fs. type f \<noteq> Category)"
    using fold_Some_None [of "\<lambda>f a. ionc a (value f) (condition f)" "filter (\<lambda>f. type f = Category) fs"]
    by (simp add: step_category filter_empty_conv)
  have h: "hidden (queryParams ?acc) =
     (if filter (\<lambda>f. type f = Hidden) fs = [] then None
      else Some (value (last (filter (\<lambda>f. type f = Hidden) fs)) = ''true''))"
    by (simp add: step_hidden fold_const_last)
  have o: "object (queryParams ?acc) = None" by (simp add: step_object)
  show ?thesis
    unfolding mapFiltersToQueryParams_def Let_def
    using t k c h o by auto
qed

theorem mapFiltersToQueryParams_shape_witness:
  "hidden (queryParams (mapFiltersToQueryParams record_call record_call (\<lambda>v. v)
     [\<lparr>value = ''true'', name = ''Hidden'', icon = None, type = Hidden,
       condition = True, canBeRemoved = True\<rparr>,
      spread_SetFilter work_filter True True])) = Some True \<and>
   object (queryParams (mapFiltersToQueryParams record_call record_call (\<lambda>v. v)
     [\<lparr>value = ''true'', name = ''Hidden'', icon = None, type = Hidden,
       condition = True, canBeRemoved = True\<rparr>,
      spread_SetFilter work_filter True True]))
     = Some \<lparr>tags = Some [(''3'', True)], kind = None, category = None\<rparr> \<and>
   object (queryParams (mapFiltersToQueryParams record_call record_call (\<lambda>v. v)
     [\<lparr>value = ''no'', name = ''Hidden'', icon = None, type = Hidden,
       condition = True, canBeRemoved = True\<rparr>])) = None \<and>
   hidden (queryParams (mapFiltersToQueryParams record_call record_call (\<lambda>v. v)
     [\<lparr>value = ''no'', name = ''Hidden'', icon = None, type = Hidden,
       condition = True, canBeRemoved = True\<rparr>])) = Some False"
  using
    mapFiltersToQueryParams_shape [of record_call record_call "\<lambda>v. v"
     "[\<lparr>value = ''true'', name = ''Hidden'', icon = None, type = Hidden,
       condition = True, canBeRemoved = True\<rparr>,
      spread_SetFilter work_filter True True]"]
    mapFiltersToQueryParams_shape [of record_call record_call "\<lambda>v. v :: string"
     "[\<lparr>value = ''no'', name = ''Hidden'', icon = None, type = Hidden,
       condition = True, canBeRemoved = True\<rparr>]"]
  by (simp add: example_defs spread_SetFilter_def mapFiltersToQueryParams_def mapFilter_step_def
      record_call_def Let_def)

subsection \<open>Colliding keys\<close>

text \<open>
  C10. \<^verbatim>\<open>getKey\<close> is not injective: two different filters of type Tag, one named
  \<^verbatim>\<open>a-b\<close> with value \<^verbatim>\<open>c\<close> and one named \<^verbatim>\<open>a\<close> with value \<^verbatim>\<open>b-c\<close>, have the
  same key. Selecting the first and then the second leaves one entry, the second's;
  registering both keeps only the first.
\<close>

theorem getKey_collision:
  "\<lparr>value = ''c'', name = ''a-b'', icon = None, type = Tag\<rparr>
     \<noteq> \<lparr>value = ''b-c'', name = ''a'', icon = None, type = Tag\<rparr> \<and>
   getKey \<lparr>value = ''c'', name = ''a-b'', icon = None, type = Tag\<rparr>
     = getKey \<lparr>value = ''b-c'', name = ''a'', icon = None, type = Tag\<rparr> \<and>
   selectedFilters
     (selectFilter \<lparr>value = ''b-c'', name = ''a'', icon = None, type = Tag\<rparr> True True
       (selectFilter \<lparr>value = ''c'', name = ''a-b'', icon = None, type = Tag\<rparr> True True
          searchStore))
     = [(''Tag-a-b-c'',
         \<lparr>value = ''b-c'', name = ''a'', icon = None, type = Tag,
          condition = True, canBeRemoved = True\<rparr>)] \<and>
   registeredFilters
     (useSearchFilter_effect Tag
        (Some [\<lparr>value = ''c'', name = ''a-b'', icon = None\<rparr>,
               \<lparr>value = ''b-c'', name = ''a'', icon = None\<rparr>]) searchStore)
     = [(''Tag-a-b-c'', \<lparr>value = ''c'', name = ''a-b'', icon = None, type = Tag\<rparr>)]"
  by (simp add: getKey_def selectFilter_def searchStore_def spread_SetFilter_def
      useSearchFilter_effect_def useSearchFilter_def register_step_def Map_has_def
      Filter.truncate_def)

end
